theory Spec2Isabelle
  imports Main "HOL-Library.AList"
begin

section \<open>Python values that occur in serialization headers\<close>

text \<open>
  The headers handled by \<^verbatim>\<open>dask_cuda/device_host_file.py\<close> are msgpack-encodable
  Python values. A dictionary is an association list with string keys, in insertion
  order: \<open>d[k] = v\<close> is \<open>AList.update\<close> (an existing key keeps its place, a new one is
  appended), \<open>d.pop(k)\<close> is a lookup followed by \<open>AList.delete\<close>.
\<close>

datatype pyval =
    PNone
  | PInt int
  | PStr string
  | PList "pyval list"
  | PDict "(string \<times> pyval) list"

type_synonym pydict = "(string \<times> pyval) list"

text \<open>
  The exceptions of the module: \<open>KeyError\<close> carries the missing key; the other
  constructors stand for the exceptions Python raises on an ill-shaped header, and
  \<open>DeserializeError\<close> for any failure of an external decoder.
\<close>

datatype 'k error =
    KeyError 'k
  | TypeError
  | ValueError
  | AttributeError
  | DeserializeError

text \<open>Iterating a Python value with \<open>for x in v\<close>: a list yields its elements, a dict its
  keys, a string its characters; \<open>None\<close> and an integer are not iterable.\<close>

fun py_iter :: "pyval \<Rightarrow> string error + pyval list" where
  "py_iter (PList xs) = Inr xs"
| "py_iter (PDict d) = Inr (map (\<lambda>kv. PStr (fst kv)) d)"
| "py_iter (PStr s) = Inr (map (\<lambda>c. PStr [c]) s)"
| "py_iter PNone = Inl TypeError"
| "py_iter (PInt i) = Inl TypeError"

text \<open>The unpacking assignment \<open>start, stop = v\<close>.\<close>

definition unpack2 :: "pyval \<Rightarrow> string error + pyval \<times> pyval" where
  "unpack2 v =
     (case py_iter v of
        Inl e \<Rightarrow> Inl e
      | Inr xs \<Rightarrow> (case xs of [a, b] \<Rightarrow> Inr (a, b) | _ \<Rightarrow> Inl ValueError))"

text \<open>A slice bound is an integer or \<open>None\<close>; anything else is a \<open>TypeError\<close>.\<close>

fun slice_index :: "pyval \<Rightarrow> string error + int option" where
  "slice_index PNone = Inr None"
| "slice_index (PInt i) = Inr (Some i)"
| "slice_index v = Inl TypeError"

text \<open>
  Python's \<open>xs[start:stop]\<close> never raises on bounds that are out of range: a negative
  bound counts from the end, and every bound is clamped to \<open>0 .. len(xs)\<close>.
\<close>

definition clamp_index :: "int \<Rightarrow> int \<Rightarrow> int" where
  "clamp_index n i = (if i < 0 then max 0 (i + n) else min i n)"

definition py_slice :: "'a list \<Rightarrow> int option \<Rightarrow> int option \<Rightarrow> 'a list" where
  "py_slice xs start stop =
     (let n = int (length xs);
          a = (case start of None \<Rightarrow> 0 | Some i \<Rightarrow> clamp_index n i);
          b = (case stop of None \<Rightarrow> n | Some j \<Rightarrow> clamp_index n j)
      in take (nat (b - a)) (drop (nat a) xs))"

text \<open>\<open>sub_header.pop(key)\<close> on an element of the sub-header list: only a dict has
  a \<open>pop\<close> that takes a string, and a missing key raises \<open>KeyError\<close>. The result is the
  popped value and the dict without the key.\<close>

fun py_pop :: "pyval \<Rightarrow> string \<Rightarrow> string error + pyval \<times> pydict" where
  "py_pop (PDict d) k =
     (case map_of d k of
        None \<Rightarrow> Inl (KeyError k)
      | Some v \<Rightarrow> Inr (v, AList.delete k d))"
| "py_pop (PList xs) k = Inl TypeError"
| "py_pop v k = Inl AttributeError"

section \<open>DeviceSerialized\<close>

text \<open>
  \<^verbatim>\<open>class DeviceSerialized\<close>: a header and a list of parts (host arrays). The type of
  parts \<open>'p\<close> and the function \<open>nbytes\<close> of \<^verbatim>\<open>distributed.utils\<close> are external.
\<close>

record 'p DeviceSerialized =
  header :: pyval
  parts :: "'p list"

text \<open>Python's \<open>sum\<close> adds from the left, starting at 0.\<close>

definition py_sum :: "nat list \<Rightarrow> nat" where
  "py_sum xs = foldl (+) 0 xs"

text \<open>\<^verbatim>\<open>DeviceSerialized.__sizeof__\<close>: \<open>sum(map(nbytes, self.parts))\<close>.\<close>

definition sizeof :: "('p \<Rightarrow> nat) \<Rightarrow> 'p DeviceSerialized \<Rightarrow> nat" where
  "sizeof nbytes s = py_sum (map nbytes (parts s))"

section \<open>Nested encoding: device\_serialize and device\_deserialize\<close>

text \<open>
  The external generic serializer of \<^verbatim>\<open>distributed.protocol\<close> is a parameter:
  \<open>serialize\<close> maps a part to a header dict and a list of frames, \<open>deserialize\<close> maps a
  header (the popped sub-header dict) and frames to a part or fails. Failures of the
  external \<open>serialize\<close> are reported in the header it returns, so it is total here.

  The loop of \<^verbatim>\<open>device_serialize\<close>, with its two accumulators \<open>headers\<close> and
  \<open>all_frames\<close>.
\<close>

fun serialize_parts ::
  "('p \<Rightarrow> pydict \<times> 'f list) \<Rightarrow> 'p list \<Rightarrow> pydict list \<Rightarrow> 'f list \<Rightarrow> pydict list \<times> 'f list"
where
  "serialize_parts serialize [] headers all_frames = (headers, all_frames)"
| "serialize_parts serialize (part # rest) headers all_frames =
     (case serialize part of
        (hdr, frames) \<Rightarrow>
          serialize_parts serialize rest
            (headers @
              [AList.update ''frame-start-stop''
                 (PList [PInt (int (length all_frames)),
                         PInt (int (length all_frames + length frames))]) hdr])
            (all_frames @ frames))"

definition device_serialize ::
  "('p \<Rightarrow> pydict \<times> 'f list) \<Rightarrow> 'p DeviceSerialized \<Rightarrow> pydict \<times> 'f list"
where
  "device_serialize serialize obj =
     (case serialize_parts serialize (parts obj) [] [] of
        (headers, all_frames) \<Rightarrow>
          ([(''sub-headers'', PList (map PDict headers)),
            (''main-header'', header obj)],
           all_frames))"

text \<open>One iteration of the loop of \<^verbatim>\<open>device_deserialize\<close>: pop the range, unpack it,
  slice the frames, decode the part.\<close>

definition deserialize_part ::
  "(pyval \<Rightarrow> 'f list \<Rightarrow> string error + 'p) \<Rightarrow> pyval \<Rightarrow> 'f list \<Rightarrow> string error + 'p"
where
  "deserialize_part deserialize sub_header frames =
     (case py_pop sub_header ''frame-start-stop'' of
        Inl e \<Rightarrow> Inl e
      | Inr (v, sub_header') \<Rightarrow>
          (case unpack2 v of
             Inl e \<Rightarrow> Inl e
           | Inr (start, stop) \<Rightarrow>
               (case slice_index start of
                  Inl e \<Rightarrow> Inl e
                | Inr a \<Rightarrow>
                    (case slice_index stop of
                       Inl e \<Rightarrow> Inl e
                     | Inr b \<Rightarrow> deserialize (PDict sub_header') (py_slice frames a b)))))"

fun deserialize_parts ::
  "(pyval \<Rightarrow> 'f list \<Rightarrow> string error + 'p) \<Rightarrow> pyval list \<Rightarrow> 'f list \<Rightarrow> 'p list
     \<Rightarrow> string error + 'p list"
where
  "deserialize_parts deserialize [] frames ps = Inr ps"
| "deserialize_parts deserialize (sub_header # rest) frames ps =
     (case deserialize_part deserialize sub_header frames of
        Inl e \<Rightarrow> Inl e
      | Inr part \<Rightarrow> deserialize_parts deserialize rest frames (ps @ [part]))"

definition device_deserialize ::
  "(pyval \<Rightarrow> 'f list \<Rightarrow> string error + 'p) \<Rightarrow> pydict \<Rightarrow> 'f list
     \<Rightarrow> string error + 'p DeviceSerialized"
where
  "device_deserialize deserialize hdr frames =
     (case map_of hdr ''sub-headers'' of
        None \<Rightarrow> Inl (KeyError ''sub-headers'')
      | Some subs \<Rightarrow>
          (case py_iter subs of
             Inl e \<Rightarrow> Inl e
           | Inr sub_headers \<Rightarrow>
               (case deserialize_parts deserialize sub_headers frames [] of
                  Inl e \<Rightarrow> Inl e
                | Inr ps \<Rightarrow>
                    (case map_of hdr ''main-header'' of
                       None \<Rightarrow> Inl (KeyError ''main-header'')
                     | Some h \<Rightarrow> Inr \<lparr>header = h, parts = ps\<rparr>))))"

section \<open>The bridge: device\_to\_host and host\_to\_device\<close>

text \<open>
  \<^verbatim>\<open>device_to_host\<close> calls the external \<open>serialize\<close> (here with the serializer
  families \<open>dask\<close> and \<open>pickle\<close>), turns every frame into a host array with
  \<^verbatim>\<open>numpy.asarray\<close> and wraps header and arrays. \<^verbatim>\<open>host_to_device\<close> passes the header
  and the parts to the external \<open>deserialize\<close>. The external functions are parameters;
  frames and host arrays are values of one type \<open>'f\<close>, since \<open>deserialize\<close> takes either.
\<close>

definition device_to_host ::
  "('o \<Rightarrow> pydict \<times> 'f list) \<Rightarrow> ('f \<Rightarrow> 'f) \<Rightarrow> 'o \<Rightarrow> 'f DeviceSerialized"
where
  "device_to_host serialize asarray obj =
     (case serialize obj of
        (hdr, frames) \<Rightarrow> \<lparr>header = PDict hdr, parts = map asarray frames\<rparr>)"

definition host_to_device ::
  "(pyval \<Rightarrow> 'f list \<Rightarrow> string error + 'o) \<Rightarrow> 'f DeviceSerialized \<Rightarrow> string error + 'o"
where
  "host_to_device deserialize s = deserialize (header s) (parts s)"

section \<open>Stores\<close>

text \<open>
  The cache is composed of mutable mappings of the library \<^verbatim>\<open>zict\<close>. A mapping is a
  record of its operations over a state \<open>'s\<close>: membership, lookup (which may fail and
  may change the state, since a lookup counts as a use), assignment, deletion
  (which may fail) and the keys in iteration order. A failing operation returns the
  error together with the state it leaves behind.
\<close>

record ('k, 'v, 's) store =
  st_contains :: "'s \<Rightarrow> 'k \<Rightarrow> bool"
  st_get :: "'s \<Rightarrow> 'k \<Rightarrow> ('k error + 'v) \<times> 's"
  st_set :: "'s \<Rightarrow> 'k \<Rightarrow> 'v \<Rightarrow> 's"
  st_del :: "'s \<Rightarrow> 'k \<Rightarrow> ('k error + unit) \<times> 's"
  st_keys :: "'s \<Rightarrow> 'k list"

text \<open>
  Modelled from the spec: the class \<^verbatim>\<open>zict.File\<close> is not among the sources. It is the
  ByteFile Store of section 4.1 of the specification: \<open>put\<close>, \<open>get\<close>, \<open>delete\<close> and
  \<open>contains\<close> on a mapping from keys to bytes, a completed \<open>put\<close> being visible at
  once; an absent key on \<open>get\<close> or \<open>delete\<close> is a \<open>KeyError\<close>. Failures of the file
  system are left out.
\<close>

definition File :: "('k, 'b, ('k \<times> 'b) list) store" where
  "File =
     \<lparr>st_contains = (\<lambda>d k. map_of d k \<noteq> None),
      st_get = (\<lambda>d k. case map_of d k of
                         None \<Rightarrow> (Inl (KeyError k), d)
                       | Some b \<Rightarrow> (Inr b, d)),
      st_set = (\<lambda>d k b. AList.update k b d),
      st_del = (\<lambda>d k. if map_of d k = None then (Inl (KeyError k), d)
                       else (Inr (), AList.delete k d)),
      st_keys = (\<lambda>d. map fst d)\<rparr>"

text \<open>
  Modelled from the spec: the class \<^verbatim>\<open>zict.Func\<close> is not among the sources. The
  source builds \<^verbatim>\<open>Func(dump, load, d)\<close>; per section 4.3 of the specification an entry
  moved to the slow mapping is encoded and a slow hit is decoded by the configured decode
  function. So \<open>Func dump load d\<close> stores \<open>dump v\<close> in \<open>d\<close>, returns \<open>load\<close> of what \<open>d\<close>
  holds, and leaves membership, deletion and keys to \<open>d\<close>.
\<close>

definition Func ::
  "('v \<Rightarrow> 'b) \<Rightarrow> ('b \<Rightarrow> 'k error + 'v) \<Rightarrow> ('k, 'b, 's) store \<Rightarrow> ('k, 'v, 's) store"
where
  "Func dump load d =
     \<lparr>st_contains = st_contains d,
      st_get = (\<lambda>s k. case st_get d s k of
                         (Inl e, s') \<Rightarrow> (Inl e, s')
                       | (Inr b, s') \<Rightarrow> (load b, s')),
      st_set = (\<lambda>s k v. st_set d s k (dump v)),
      st_del = st_del d,
      st_keys = st_keys d\<rparr>"

text \<open>
  Modelled from the spec: the class \<^verbatim>\<open>zict.Buffer\<close> is not among the sources. It is the
  CountedBuffer of section 4.3 of the specification. Its state is the fast map, an
  association list from the least recently touched entry to the most recently touched
  one, and the state of the slow mapping. The total fast weight is the sum of the
  weights of the fast entries.
\<close>

definition fast_weight :: "('k \<Rightarrow> 'v \<Rightarrow> nat) \<Rightarrow> ('k \<times> 'v) list \<Rightarrow> nat" where
  "fast_weight w fast = sum_list (map (\<lambda>kv. w (fst kv) (snd kv)) fast)"

text \<open>
  Modelled from the spec: the eviction loop of the CountedBuffer (\<^verbatim>\<open>zict\<close> is not among
  the sources). ``While total > capacity: evict the least-recently-touched fast entry --
  encode it, insert into slow, subtract its weight -- until total \<open>\<le>\<close> capacity or fast
  is empty.''
\<close>

fun evict ::
  "('k, 'v, 's) store \<Rightarrow> ('k \<Rightarrow> 'v \<Rightarrow> nat) \<Rightarrow> nat \<Rightarrow> ('k \<times> 'v) list \<Rightarrow> 's
     \<Rightarrow> ('k \<times> 'v) list \<times> 's"
where
  "evict slow w n [] s = ([], s)"
| "evict slow w n (kv # fast) s =
     (if n < fast_weight w (kv # fast)
      then evict slow w n fast (st_set slow s (fst kv) (snd kv))
      else (kv # fast, s))"

text \<open>
  Modelled from the spec: \<open>put\<close> of the CountedBuffer (\<^verbatim>\<open>zict\<close> is not among the
  sources). ``If key exists in slow, remove it there first. Insert into fast, add weight
  to total'', then the eviction loop; a buffer without capacity never evicts. A re-put
  overwrites: an entry of the fast map under the same key is replaced.
\<close>

fun Buffer_setitem ::
  "('k, 'v, 's) store \<Rightarrow> nat option \<Rightarrow> ('k \<Rightarrow> 'v \<Rightarrow> nat) \<Rightarrow> ('k \<times> 'v) list \<times> 's
     \<Rightarrow> 'k \<Rightarrow> 'v \<Rightarrow> ('k \<times> 'v) list \<times> 's"
where
  "Buffer_setitem slow n w (fast, s) k v =
     (let s1 = (if st_contains slow s k then snd (st_del slow s k) else s);
          fast1 = AList.delete k fast @ [(k, v)]
      in case n of
           None \<Rightarrow> (fast1, s1)
         | Some c \<Rightarrow> evict slow w c fast1 s1)"

text \<open>
  Modelled from the spec: \<open>get\<close> of the CountedBuffer (\<^verbatim>\<open>zict\<close> is not among the
  sources). ``Fast hit returns directly; slow hit decodes via the configured decode
  function, leaves placement unchanged''; ``recency updates on any fast get''; an absent
  key is a \<open>KeyError\<close>.
\<close>

fun Buffer_getitem ::
  "('k, 'v, 's) store \<Rightarrow> ('k \<times> 'v) list \<times> 's \<Rightarrow> 'k \<Rightarrow> ('k error + 'v) \<times> ('k \<times> 'v) list \<times> 's"
where
  "Buffer_getitem slow (fast, s) k =
     (case map_of fast k of
        Some v \<Rightarrow> (Inr v, (AList.delete k fast @ [(k, v)], s))
      | None \<Rightarrow>
          (if st_contains slow s k
           then (case st_get slow s k of (r, s') \<Rightarrow> (r, (fast, s')))
           else (Inl (KeyError k), (fast, s))))"

text \<open>
  Modelled from the spec: \<open>delete\<close> of the CountedBuffer (\<^verbatim>\<open>zict\<close> is not among the
  sources). ``Removes from whichever map holds it; if slow, also removes the backing
  record''; the fast map is looked at first, and an absent key is a \<open>KeyError\<close>.
\<close>

fun Buffer_delitem ::
  "('k, 'v, 's) store \<Rightarrow> ('k \<times> 'v) list \<times> 's \<Rightarrow> 'k \<Rightarrow> ('k error + unit) \<times> ('k \<times> 'v) list \<times> 's"
where
  "Buffer_delitem slow (fast, s) k =
     (if map_of fast k \<noteq> None then (Inr (), (AList.delete k fast, s))
      else if st_contains slow s k
      then (case st_del slow s k of (r, s') \<Rightarrow> (r, (fast, s')))
      else (Inl (KeyError k), (fast, s)))"

text \<open>
  Modelled from the spec: membership and iteration of the CountedBuffer (\<^verbatim>\<open>zict\<close> is
  not among the sources). ``Size/membership/iteration: aggregate over both maps, each
  key counted once'': the keys of the fast map, then the keys of the slow mapping that
  the fast map does not hold; the size is the number of these keys.
\<close>

fun Buffer_contains :: "('k, 'v, 's) store \<Rightarrow> ('k \<times> 'v) list \<times> 's \<Rightarrow> 'k \<Rightarrow> bool" where
  "Buffer_contains slow (fast, s) k = (map_of fast k \<noteq> None \<or> st_contains slow s k)"

fun Buffer_keys :: "('k, 'v, 's) store \<Rightarrow> ('k \<times> 'v) list \<times> 's \<Rightarrow> 'k list" where
  "Buffer_keys slow (fast, s) =
     map fst fast @ filter (\<lambda>k. map_of fast k = None) (st_keys slow s)"

text \<open>\<^verbatim>\<open>Buffer(fast, slow, n, weight)\<close>: the fast dict is the first component of the
  state.\<close>

definition Buffer ::
  "('k, 'v, 's) store \<Rightarrow> nat option \<Rightarrow> ('k \<Rightarrow> 'v \<Rightarrow> nat)
     \<Rightarrow> ('k, 'v, ('k \<times> 'v) list \<times> 's) store"
where
  "Buffer slow n w =
     \<lparr>st_contains = Buffer_contains slow,
      st_get = Buffer_getitem slow,
      st_set = Buffer_setitem slow n w,
      st_del = Buffer_delitem slow,
      st_keys = Buffer_keys slow\<rparr>"

section \<open>DeviceHostFile\<close>

text \<open>
  What \<^verbatim>\<open>DeviceHostFile\<close> takes from outside: the residency predicate
  \<^verbatim>\<open>is_device_object\<close>, the weight function of \<^verbatim>\<open>distributed.worker\<close>, the two
  capacities given to \<^verbatim>\<open>__init__\<close>, and the codecs of its two \<^verbatim>\<open>Func\<close> layers,
  on the type \<open>'v\<close> of all objects the cache stores: \<open>to_host\<close> and \<open>to_device\<close> stand
  for \<^verbatim>\<open>device_to_host\<close> and \<^verbatim>\<open>host_to_device\<close>, \<open>to_bytes\<close> and \<open>of_bytes\<close> for
  \<^verbatim>\<open>serialize_bytelist\<close> and \<^verbatim>\<open>deserialize_bytes\<close>. Everything below holds for
  every choice of them.
\<close>

record ('k, 'v, 'b) params =
  is_device_object :: "'v \<Rightarrow> bool"
  weight :: "'k \<Rightarrow> 'v \<Rightarrow> nat"
  device_memory_limit :: "nat option"
  memory_limit :: "nat option"
  to_host :: "'v \<Rightarrow> 'v"
  to_device :: "'v \<Rightarrow> 'k error + 'v"
  to_bytes :: "'v \<Rightarrow> 'b"
  of_bytes :: "'b \<Rightarrow> 'k error + 'v"

text \<open>
  The mutable state of a \<^verbatim>\<open>DeviceHostFile\<close>: the set \<^verbatim>\<open>device_keys\<close> and the three
  dicts \<^verbatim>\<open>device\<close>, \<^verbatim>\<open>host\<close> and \<^verbatim>\<open>disk\<close>. The fast map of the device buffer is
  \<open>device\<close>; its slow mapping is the host buffer, whose fast map is \<open>host\<close> and whose slow
  mapping is \<open>disk\<close>. The host buffer is thus one object reached on two paths, and both
  paths act on the same two fields.
\<close>

record ('k, 'v, 'b) DeviceHostFile =
  device_keys :: "'k set"
  device :: "('k \<times> 'v) list"
  host :: "('k \<times> 'v) list"
  disk :: "('k \<times> 'b) list"

text \<open>The objects that \<^verbatim>\<open>__init__\<close> builds (lines 109 to 122).\<close>

definition disk_func :: "('k, 'v, 'b) params \<Rightarrow> ('k, 'v, ('k \<times> 'b) list) store" where
  "disk_func P = Func (to_bytes P) (of_bytes P) File"

definition host_buffer ::
  "('k, 'v, 'b) params \<Rightarrow> ('k, 'v, ('k \<times> 'v) list \<times> ('k \<times> 'b) list) store"
where
  "host_buffer P = Buffer (disk_func P) (memory_limit P) (weight P)"

definition device_host_func ::
  "('k, 'v, 'b) params \<Rightarrow> ('k, 'v, ('k \<times> 'v) list \<times> ('k \<times> 'b) list) store"
where
  "device_host_func P = Func (to_host P) (to_device P) (host_buffer P)"

definition device_buffer ::
  "('k, 'v, 'b) params
     \<Rightarrow> ('k, 'v, ('k \<times> 'v) list \<times> ('k \<times> 'v) list \<times> ('k \<times> 'b) list) store"
where
  "device_buffer P = Buffer (device_host_func P) (device_memory_limit P) (weight P)"

definition init :: "('k, 'v, 'b) DeviceHostFile" where
  "init = \<lparr>device_keys = {}, device = [], host = [], disk = []\<rparr>"

text \<open>The state of each buffer inside the state of the cache, and writing it back.\<close>

definition host_buffer_state ::
  "('k, 'v, 'b) DeviceHostFile \<Rightarrow> ('k \<times> 'v) list \<times> ('k \<times> 'b) list"
where
  "host_buffer_state s = (host s, disk s)"

definition device_buffer_state ::
  "('k, 'v, 'b) DeviceHostFile \<Rightarrow> ('k \<times> 'v) list \<times> ('k \<times> 'v) list \<times> ('k \<times> 'b) list"
where
  "device_buffer_state s = (device s, host s, disk s)"

definition with_host_buffer ::
  "('k, 'v, 'b) DeviceHostFile \<Rightarrow> ('k \<times> 'v) list \<times> ('k \<times> 'b) list
     \<Rightarrow> ('k, 'v, 'b) DeviceHostFile"
where
  "with_host_buffer s t = s\<lparr>host := fst t, disk := snd t\<rparr>"

definition with_device_buffer ::
  "('k, 'v, 'b) DeviceHostFile \<Rightarrow> ('k \<times> 'v) list \<times> ('k \<times> 'v) list \<times> ('k \<times> 'b) list
     \<Rightarrow> ('k, 'v, 'b) DeviceHostFile"
where
  "with_device_buffer s t = s\<lparr>device := fst t, host := fst (snd t), disk := snd (snd t)\<rparr>"

text \<open>\<^verbatim>\<open>DeviceHostFile.__setitem__\<close>.\<close>

definition setitem ::
  "('k, 'v, 'b) params \<Rightarrow> ('k, 'v, 'b) DeviceHostFile \<Rightarrow> 'k \<Rightarrow> 'v \<Rightarrow> ('k, 'v, 'b) DeviceHostFile"
where
  "setitem P s key val =
     (if is_device_object P val
      then with_device_buffer (s\<lparr>device_keys := insert key (device_keys s)\<rparr>)
             (st_set (device_buffer P) (device_buffer_state s) key val)
      else with_host_buffer s (st_set (host_buffer P) (host_buffer_state s) key val))"

text \<open>\<^verbatim>\<open>DeviceHostFile.__getitem__\<close>: the result, and the state after the lookup.\<close>

definition getitem ::
  "('k, 'v, 'b) params \<Rightarrow> ('k, 'v, 'b) DeviceHostFile \<Rightarrow> 'k
     \<Rightarrow> ('k error + 'v) \<times> ('k, 'v, 'b) DeviceHostFile"
where
  "getitem P s key =
     (if key \<in> device_keys s
      then (case st_get (device_buffer P) (device_buffer_state s) key of
              (r, t) \<Rightarrow> (r, with_device_buffer s t))
      else if st_contains (host_buffer P) (host_buffer_state s) key
      then (case st_get (host_buffer P) (host_buffer_state s) key of
              (r, t) \<Rightarrow> (r, with_host_buffer s t))
      else (Inl (KeyError key), s))"

text \<open>\<^verbatim>\<open>DeviceHostFile.__len__\<close> and \<^verbatim>\<open>DeviceHostFile.__iter__\<close>.\<close>

definition len :: "('k, 'v, 'b) params \<Rightarrow> ('k, 'v, 'b) DeviceHostFile \<Rightarrow> nat" where
  "len P s = length (st_keys (device_buffer P) (device_buffer_state s))"

definition iter :: "('k, 'v, 'b) params \<Rightarrow> ('k, 'v, 'b) DeviceHostFile \<Rightarrow> 'k list" where
  "iter P s = st_keys (device_buffer P) (device_buffer_state s)"

text \<open>\<^verbatim>\<open>DeviceHostFile.__delitem__\<close>: the key leaves \<^verbatim>\<open>device_keys\<close> first, so it
  has left the set also when the deletion from the device buffer then fails.\<close>

definition delitem ::
  "('k, 'v, 'b) params \<Rightarrow> ('k, 'v, 'b) DeviceHostFile \<Rightarrow> 'k
     \<Rightarrow> ('k error + unit) \<times> ('k, 'v, 'b) DeviceHostFile"
where
  "delitem P s key =
     (case st_del (device_buffer P)
             (device_buffer_state (s\<lparr>device_keys := device_keys s - {key}\<rparr>)) key of
        (r, t) \<Rightarrow> (r, with_device_buffer (s\<lparr>device_keys := device_keys s - {key}\<rparr>) t))"

section \<open>Auxiliary definitions for the proofs\<close>

text \<open>
  The functions of this section are not part of the program. They describe the result
  of the encoder's loop without accumulators, read the recorded ranges back from a
  header, and give small concrete instances of the external functions for examples.
\<close>

text \<open>The sub-headers that \<^verbatim>\<open>device_serialize\<close> appends when \<open>n\<close> frames have
  been emitted so far, and the frames it appends.\<close>

fun sub_headers_from :: "('p \<Rightarrow> pydict \<times> 'f list) \<Rightarrow> nat \<Rightarrow> 'p list \<Rightarrow> pydict list" where
  "sub_headers_from serialize n [] = []"
| "sub_headers_from serialize n (part # rest) =
     AList.update ''frame-start-stop''
       (PList [PInt (int n), PInt (int (n + length (snd (serialize part))))])
       (fst (serialize part))
     # sub_headers_from serialize (n + length (snd (serialize part))) rest"

definition frames_of :: "('p \<Rightarrow> pydict \<times> 'f list) \<Rightarrow> 'p list \<Rightarrow> 'f list" where
  "frames_of serialize ps = concat (map (\<lambda>p. snd (serialize p)) ps)"

fun ranges_from :: "('p \<Rightarrow> pydict \<times> 'f list) \<Rightarrow> nat \<Rightarrow> 'p list \<Rightarrow> (int \<times> int) list" where
  "ranges_from serialize n [] = []"
| "ranges_from serialize n (part # rest) =
     (int n, int (n + length (snd (serialize part))))
     # ranges_from serialize (n + length (snd (serialize part))) rest"

text \<open>The range a sub-header records, when it records a pair of integers, and the
  ranges of all sub-headers of a nested header.\<close>

fun frame_start_stop :: "pyval \<Rightarrow> (int \<times> int) option" where
  "frame_start_stop (PDict d) =
     (case map_of d ''frame-start-stop'' of
        Some (PList [PInt a, PInt b]) \<Rightarrow> Some (a, b)
      | _ \<Rightarrow> None)"
| "frame_start_stop v = None"

definition recorded_ranges :: "pydict \<Rightarrow> (int \<times> int) option list" where
  "recorded_ranges hdr =
     (case map_of hdr ''sub-headers'' of
        Some (PList hs) \<Rightarrow> map frame_start_stop hs
      | _ \<Rightarrow> [])"

text \<open>Ranges that start at \<open>a\<close>, follow one another without gap or overlap, and end
  at \<open>c\<close>.\<close>

fun chained :: "int \<Rightarrow> (int \<times> int) list \<Rightarrow> int \<Rightarrow> bool" where
  "chained a [] c = (a = c)"
| "chained a (r # rs) c = (fst r = a \<and> fst r \<le> snd r \<and> chained (snd r) rs c)"

text \<open>All results of a list of decodings, or the first failure.\<close>

fun all_or_first_error :: "('e + 'a) list \<Rightarrow> 'e + 'a list" where
  "all_or_first_error [] = Inr []"
| "all_or_first_error (Inl e # rs) = Inl e"
| "all_or_first_error (Inr x # rs) =
     (case all_or_first_error rs of Inl e \<Rightarrow> Inl e | Inr xs \<Rightarrow> Inr (x # xs))"

text \<open>An example of an external serializer for parts: a part is a list of bytes, each
  byte is one frame; decoding returns the frames it is given.\<close>

definition example_serialize :: "nat list \<Rightarrow> pydict \<times> nat list" where
  "example_serialize p = ([(''type'', PStr ''bytes'')], p)"

definition example_deserialize :: "pyval \<Rightarrow> nat list \<Rightarrow> string error + nat list" where
  "example_deserialize h fs = Inr fs"

text \<open>
  The external functions at a Python \<open>bytes\<close> object, which is a list of bytes here.
  The serializer of \<^verbatim>\<open>distributed.protocol\<close> for \<open>bytes\<close> returns the object itself as
  the one frame, and its deserializer joins the frames it is given. \<^verbatim>\<open>numpy.asarray\<close>
  of a \<open>bytes\<close> object is a zero-dimensional array of a fixed-width byte string, and
  the width is at least one: the buffer of the array holds the bytes of the object,
  and one zero byte when the object is empty.
\<close>

definition bytes_serialize :: "nat list \<Rightarrow> pydict \<times> nat list list" where
  "bytes_serialize b = ([(''serializer'', PStr ''dask'')], [b])"

definition bytes_deserialize :: "pyval \<Rightarrow> nat list list \<Rightarrow> string error + nat list" where
  "bytes_deserialize h fs = Inr (concat fs)"

definition bytes_asarray :: "nat list \<Rightarrow> nat list" where
  "bytes_asarray b = (if b = [] then [0] else b)"

text \<open>An example of the parameters of a cache: an object is a list of bytes that lives
  on the device, on the host, or is a spilled device object; its weight is its number
  of bytes. Both tiers hold four bytes.\<close>

datatype example_value = OnDevice "nat list" | OnHost "nat list" | Spilled "nat list"

fun value_bytes :: "example_value \<Rightarrow> nat list" where
  "value_bytes (OnDevice b) = b"
| "value_bytes (OnHost b) = b"
| "value_bytes (Spilled b) = b"

fun example_is_device :: "example_value \<Rightarrow> bool" where
  "example_is_device (OnDevice b) = True"
| "example_is_device v = False"

fun example_to_device :: "example_value \<Rightarrow> string error + example_value" where
  "example_to_device (Spilled b) = Inr (OnDevice b)"
| "example_to_device v = Inl AttributeError"

definition example_params :: "(string, example_value, example_value) params" where
  "example_params =
     \<lparr>is_device_object = example_is_device,
      weight = (\<lambda>k v. length (value_bytes v)),
      device_memory_limit = Some 4,
      memory_limit = Some 4,
      to_host = (\<lambda>v. Spilled (value_bytes v)),
      to_device = example_to_device,
      to_bytes = (\<lambda>v. v),
      of_bytes = Inr\<rparr>"

text \<open>A store retains keys: a key is held after it has been assigned, and an
  assignment or the deletion of another key loses no key that was held.\<close>

definition retains :: "('k, 'v, 's) store \<Rightarrow> bool" where
  "retains st \<longleftrightarrow>
     (\<forall>s k v. st_contains st (st_set st s k v) k)
   \<and> (\<forall>s k v k'. st_contains st s k' \<longrightarrow> st_contains st (st_set st s k v) k')
   \<and> (\<forall>s k k'. k' \<noteq> k \<longrightarrow> st_contains st s k' \<longrightarrow> st_contains st (snd (st_del st s k)) k')"

section \<open>Size accounting\<close>

lemma foldl_add_sum_list: "foldl (+) (a::nat) xs = a + sum_list xs"
  by (induction xs arbitrary: a) simp_all

lemma py_sum_sum_list: "py_sum xs = sum_list xs"
  by (simp add: py_sum_def foldl_add_sum_list)

text \<open>
  C10: the size a DeviceSerialized reports is the sum of the byte sizes of its parts;
  the header contributes nothing (replacing the header changes nothing), and an empty
  parts list reports 0.
\<close>

theorem sizeof_sum_of_parts:
  "sizeof nbytes s = (\<Sum>p\<leftarrow>parts s. nbytes p)
   \<and> sizeof nbytes (s\<lparr>header := h\<rparr>) = sizeof nbytes s
   \<and> sizeof nbytes \<lparr>header = h, parts = []\<rparr> = 0"
  by (simp add: sizeof_def py_sum_sum_list)

section \<open>The encoder's loop without accumulators\<close>

lemma serialize_parts_eq:
  "serialize_parts serialize ps headers all_frames =
     (headers @ sub_headers_from serialize (length all_frames) ps,
      all_frames @ frames_of serialize ps)"
  by (induction ps arbitrary: headers all_frames)
     (simp_all add: frames_of_def split: prod.splits)

lemma device_serialize_eq:
  "device_serialize serialize obj =
     ([(''sub-headers'', PList (map PDict (sub_headers_from serialize 0 (parts obj)))),
       (''main-header'', header obj)],
      frames_of serialize (parts obj))"
  by (simp add: device_serialize_def serialize_parts_eq)

section \<open>Slicing and the decoder\<close>

lemma py_slice_middle:
  "py_slice (pre @ mid @ post) (Some (int (length pre))) (Some (int (length pre) + int (length mid))) = mid"
  by (simp add: py_slice_def clamp_index_def Let_def)

lemma deserialize_part_sub_header:
  assumes "deserialize (PDict (AList.delete ''frame-start-stop'' h)) mid = r"
  shows "deserialize_part deserialize
           (PDict (AList.update ''frame-start-stop''
              (PList [PInt (int (length pre)), PInt (int (length pre + length mid))]) h))
           (pre @ mid @ post) = r"
  using assms
  by (simp add: deserialize_part_def update_conv' unpack2_def py_slice_middle delete_update_same)

lemma deserialize_parts_sub_headers:
  assumes "\<And>p. p \<in> set ps \<Longrightarrow>
             deserialize (PDict (AList.delete ''frame-start-stop'' (fst (serialize p)))) (snd (serialize p)) = Inr p"
  shows "deserialize_parts deserialize
           (map PDict (sub_headers_from serialize (length pre) ps))
           (pre @ frames_of serialize ps @ post) acc = Inr (acc @ ps)"
  using assms
proof (induction ps arbitrary: pre acc)
  case Nil
  then show ?case by simp
next
  case (Cons p ps)
  let ?mid = "snd (serialize p)"
  have part: "deserialize_part deserialize
           (PDict (AList.update ''frame-start-stop''
              (PList [PInt (int (length pre)), PInt (int (length pre + length ?mid))]) (fst (serialize p))))
           (pre @ ?mid @ (frames_of serialize ps @ post)) = Inr p"
    by (rule deserialize_part_sub_header) (simp add: Cons.prems)
  have rest: "deserialize_parts deserialize
           (map PDict (sub_headers_from serialize (length (pre @ ?mid)) ps))
           ((pre @ ?mid) @ frames_of serialize ps @ post) (acc @ [p]) = Inr ((acc @ [p]) @ ps)"
    by (rule Cons.IH) (simp add: Cons.prems)
  show ?case using part rest by (simp add: frames_of_def)
qed


lemma deserialize_part_declared:
  "deserialize_part deserialize
     (PDict (AList.update ''frame-start-stop'' (PList [PInt a, PInt b]) d)) frames =
   deserialize (PDict (AList.delete ''frame-start-stop'' d)) (py_slice frames (Some a) (Some b))"
  by (simp add: deserialize_part_def update_conv' unpack2_def delete_update_same)

lemma deserialize_parts_declared:
  "deserialize_parts deserialize
     (map (\<lambda>(a, b, d). PDict (AList.update ''frame-start-stop'' (PList [PInt a, PInt b]) d)) es)
     frames acc =
   (case all_or_first_error
           (map (\<lambda>(a, b, d). deserialize (PDict (AList.delete ''frame-start-stop'' d))
                                 (py_slice frames (Some a) (Some b))) es) of
      Inl e \<Rightarrow> Inl e
    | Inr ps \<Rightarrow> Inr (acc @ ps))"
proof (induction es arbitrary: acc)
  case Nil
  then show ?case by simp
next
  case (Cons x es)
  obtain a b d where x: "x = (a, b, d)" by (cases x) auto
  show ?case
  proof (cases "deserialize (PDict (AList.delete ''frame-start-stop'' d)) (py_slice frames (Some a) (Some b))")
    case (Inl e)
    then show ?thesis by (simp add: x deserialize_part_declared)
  next
    case (Inr p)
    then show ?thesis
      by (simp add: x deserialize_part_declared Cons.IH split: sum.splits)
  qed
qed

section \<open>The recorded ranges\<close>

lemma frame_start_stop_sub_headers_from:
  "map frame_start_stop (map PDict (sub_headers_from serialize n ps)) =
     map Some (ranges_from serialize n ps)"
  by (induction ps arbitrary: n) (simp_all add: update_conv')

lemma length_ranges_from: "length (ranges_from serialize n ps) = length ps"
  by (induction ps arbitrary: n) simp_all

lemma chained_ranges_from:
  "chained (int n) (ranges_from serialize n ps) (int (n + length (frames_of serialize ps)))"
proof (induction ps arbitrary: n)
  case Nil
  then show ?case by (simp add: frames_of_def)
next
  case (Cons p ps)
  have "chained (int (n + length (snd (serialize p))))
          (ranges_from serialize (n + length (snd (serialize p))) ps)
          (int (n + length (snd (serialize p)) + length (frames_of serialize ps)))"
    by (rule Cons.IH)
  then show ?case by (simp add: frames_of_def add.assoc)
qed

lemma chained_hd: "chained a rs c \<Longrightarrow> rs \<noteq> [] \<Longrightarrow> fst (hd rs) = a"
  by (cases rs) simp_all

lemma chained_le: "chained a rs c \<Longrightarrow> r \<in> set rs \<Longrightarrow> fst r \<le> snd r"
  by (induction rs arbitrary: a) auto

lemma chained_last: "chained a rs c \<Longrightarrow> rs \<noteq> [] \<Longrightarrow> snd (last rs) = c"
  by (induction rs arbitrary: a) (auto split: if_splits)

lemma chained_Suc:
  "chained a rs c \<Longrightarrow> Suc i < length rs \<Longrightarrow> fst (rs ! Suc i) = snd (rs ! i)"
proof (induction rs arbitrary: a i)
  case Nil
  then show ?case by simp
next
  case (Cons r rs)
  show ?case
  proof (cases i)
    case 0
    with Cons.prems show ?thesis by (cases rs) simp_all
  next
    case (Suc j)
    with Cons.prems Cons.IH [of "snd r" j] show ?thesis by simp
  qed
qed

text \<open>
  C7: the ranges that \<^verbatim>\<open>device_serialize\<close> records, one per part, are contiguous:
  the first starts at 0, each next one starts where the previous one stops, no stop is
  below its start, and the last stop is the number of frames emitted (with no part,
  no frame is emitted).
\<close>

theorem device_serialize_ranges_contiguous:
  "\<exists>rs. recorded_ranges (fst (device_serialize serialize s)) = map Some rs
      \<and> length rs = length (parts s)
      \<and> (rs \<noteq> [] \<longrightarrow> fst (hd rs) = 0)
      \<and> (\<forall>i. Suc i < length rs \<longrightarrow> fst (rs ! Suc i) = snd (rs ! i))
      \<and> (\<forall>r \<in> set rs. fst r \<le> snd r)
      \<and> (if rs = [] then snd (device_serialize serialize s) = []
          else snd (last rs) = int (length (snd (device_serialize serialize s))))"
proof -
  let ?rs = "ranges_from serialize 0 (parts s)"
  have ch: "chained 0 ?rs (int (length (frames_of serialize (parts s))))"
    using chained_ranges_from [of 0 serialize "parts s"] by simp
  have rec: "recorded_ranges (fst (device_serialize serialize s)) = map Some ?rs"
    by (simp add: device_serialize_eq recorded_ranges_def frame_start_stop_sub_headers_from
             del: map_map)
  have len: "length ?rs = length (parts s)"
    by (rule length_ranges_from)
  have empty: "?rs = [] \<Longrightarrow> frames_of serialize (parts s) = []"
    using len by (simp add: frames_of_def)
  show ?thesis
  proof (intro exI [of _ ?rs] conjI)
    show "recorded_ranges (fst (device_serialize serialize s)) = map Some ?rs" by (rule rec)
    show "length ?rs = length (parts s)" by (rule len)
    show "?rs \<noteq> [] \<longrightarrow> fst (hd ?rs) = 0" using chained_hd [OF ch] by simp
    show "\<forall>i. Suc i < length ?rs \<longrightarrow> fst (?rs ! Suc i) = snd (?rs ! i)"
      using chained_Suc [OF ch] by simp
    show "\<forall>r \<in> set ?rs. fst r \<le> snd r" using chained_le [OF ch] by blast
    show "if ?rs = [] then snd (device_serialize serialize s) = []
          else snd (last ?rs) = int (length (snd (device_serialize serialize s)))"
      using chained_last [OF ch] empty by (simp add: device_serialize_eq)
  qed
qed

theorem device_serialize_ranges_contiguous_witness:
  "\<exists>rs. recorded_ranges (fst (device_serialize example_serialize
              \<lparr>header = PStr ''h'', parts = [[1, 2], [], [3]]\<rparr>)) = map Some rs
      \<and> length rs = 3 \<and> fst (hd rs) = 0 \<and> snd (last rs) = 3"
proof -
  from device_serialize_ranges_contiguous
    [of example_serialize "\<lparr>header = PStr ''h'', parts = [[1, 2], [], [3::nat]]\<rparr>"]
  obtain rs where
    rs: "recorded_ranges (fst (device_serialize example_serialize
              \<lparr>header = PStr ''h'', parts = [[1, 2], [], [3]]\<rparr>)) = map Some rs"
    and len: "length rs = length (parts \<lparr>header = PStr ''h'', parts = [[1, 2], [], [3::nat]]\<rparr>)"
    and hd: "rs \<noteq> [] \<longrightarrow> fst (hd rs) = 0"
    and lst: "if rs = [] then snd (device_serialize example_serialize
              \<lparr>header = PStr ''h'', parts = [[1, 2], [], [3]]\<rparr>) = []
          else snd (last rs) = int (length (snd (device_serialize example_serialize
              \<lparr>header = PStr ''h'', parts = [[1, 2], [], [3]]\<rparr>)))"
    by blast
  from len have ne: "rs \<noteq> []" by auto
  have fr: "snd (device_serialize example_serialize
              \<lparr>header = PStr ''h'', parts = [[1, 2], [], [3]]\<rparr>) = [1, 2, 3]"
    by (simp add: device_serialize_def example_serialize_def)
  from rs len hd lst ne fr show ?thesis by (intro exI [of _ rs]) simp
qed

section \<open>Round trip of the nested encoding\<close>

text \<open>
  C1: decoding what \<^verbatim>\<open>device_serialize\<close> produced gives the value back: the same
  parts in the same order, and the main header as it was. The external serializer is
  assumed to return each part from the header and frames it produced for it, and not to
  use the key \<open>frame-start-stop\<close>, which the encoder writes into the sub-header and the
  decoder removes. With no part nothing is assumed.
\<close>

theorem device_deserialize_device_serialize:
  assumes inv: "\<And>p. p \<in> set (parts s) \<Longrightarrow>
                  deserialize (PDict (fst (serialize p))) (snd (serialize p)) = Inr p"
      and key: "\<And>p. p \<in> set (parts s) \<Longrightarrow>
                  ''frame-start-stop'' \<notin> fst ` set (fst (serialize p))"
  shows "device_deserialize deserialize
           (fst (device_serialize serialize s)) (snd (device_serialize serialize s)) = Inr s"
proof -
  have "deserialize_parts deserialize
           (map PDict (sub_headers_from serialize (length ([]::'b list)) (parts s)))
           ([] @ frames_of serialize (parts s) @ []) [] = Inr ([] @ parts s)"
    by (rule deserialize_parts_sub_headers) (simp add: inv key)
  then show ?thesis
    by (simp add: device_serialize_eq device_deserialize_def)
qed


theorem device_deserialize_device_serialize_witness:
  "device_deserialize example_deserialize
     (fst (device_serialize example_serialize \<lparr>header = PStr ''h'', parts = [[1, 2], [], [3]]\<rparr>))
     (snd (device_serialize example_serialize \<lparr>header = PStr ''h'', parts = [[1, 2], [], [3]]\<rparr>))
     = Inr \<lparr>header = PStr ''h'', parts = [[1, 2], [], [3]]\<rparr>
   \<and> device_deserialize example_deserialize
     (fst (device_serialize example_serialize \<lparr>header = PNone, parts = []\<rparr>))
     (snd (device_serialize example_serialize \<lparr>header = PNone, parts = []\<rparr>))
     = Inr \<lparr>header = PNone, parts = []\<rparr>"
proof
  show "device_deserialize example_deserialize
     (fst (device_serialize example_serialize \<lparr>header = PStr ''h'', parts = [[1, 2], [], [3]]\<rparr>))
     (snd (device_serialize example_serialize \<lparr>header = PStr ''h'', parts = [[1, 2], [], [3]]\<rparr>))
     = Inr \<lparr>header = PStr ''h'', parts = [[1, 2], [], [3]]\<rparr>"
    by (rule device_deserialize_device_serialize)
       (simp_all add: example_serialize_def example_deserialize_def)
  show "device_deserialize example_deserialize
     (fst (device_serialize example_serialize \<lparr>header = PNone, parts = []\<rparr>))
     (snd (device_serialize example_serialize \<lparr>header = PNone, parts = []\<rparr>))
     = Inr \<lparr>header = PNone, parts = []\<rparr>"
    by (rule device_deserialize_device_serialize) simp_all
qed

section \<open>Declared ranges are not checked against the frames\<close>

text \<open>
  C6, as the code behaves: \<^verbatim>\<open>device_deserialize\<close> never compares the declared
  ranges with the number of frames. For a header whose sub-headers each declare a pair
  of integers, every part is decoded by the external deserializer from the slice
  \<open>frames[start:stop]\<close>, whose bounds Python clamps to the frames supplied; the result is
  the first failure of the external deserializer, with no partial result, or else all
  decoded parts with the main header.
\<close>

theorem device_deserialize_unchecked_ranges:
  assumes subs: "map_of hdr ''sub-headers'' =
       Some (PList (map (\<lambda>(a, b, d).
          PDict (AList.update ''frame-start-stop'' (PList [PInt a, PInt b]) d)) es))"
      and main: "map_of hdr ''main-header'' = Some mh"
  shows "device_deserialize deserialize hdr frames =
     (case all_or_first_error
             (map (\<lambda>(a, b, d). deserialize (PDict (AList.delete ''frame-start-stop'' d))
                                   (py_slice frames (Some a) (Some b))) es) of
        Inl e \<Rightarrow> Inl e
      | Inr ps \<Rightarrow> Inr \<lparr>header = mh, parts = ps\<rparr>)"
  by (simp add: device_deserialize_def subs main deserialize_parts_declared split: sum.splits)

theorem device_deserialize_unchecked_ranges_witness:
  "device_deserialize example_deserialize
     [(''sub-headers'', PList [PDict [(''frame-start-stop'', PList [PInt 0, PInt 3])]]),
      (''main-header'', PStr ''m'')]
     [5, 6] = Inr \<lparr>header = PStr ''m'', parts = [[5, 6]]\<rparr>"
  using device_deserialize_unchecked_ranges
    [of "[(''sub-headers'', PList [PDict [(''frame-start-stop'', PList [PInt 0, PInt 3])]]),
          (''main-header'', PStr ''m'')]"
        "[(0, 3, [])]" "PStr ''m''" example_deserialize "[5, 6]"]
  by (simp add: example_deserialize_def py_slice_def clamp_index_def)

text \<open>
  The claim that a mismatch of declared ranges and supplied frames is an error fails:
  two ranges \<open>[0,2)\<close> and \<open>[5,9)\<close> are declared, one frame is supplied, and the decoder
  returns two parts.
\<close>

theorem device_deserialize_mismatch_counterexample:
  "recorded_ranges
     [(''sub-headers'', PList [PDict [(''frame-start-stop'', PList [PInt 0, PInt 2])],
                               PDict [(''frame-start-stop'', PList [PInt 5, PInt 9])]]),
      (''main-header'', PNone)] = [Some (0, 2), Some (5, 9)]
   \<and> device_deserialize example_deserialize
     [(''sub-headers'', PList [PDict [(''frame-start-stop'', PList [PInt 0, PInt 2])],
                               PDict [(''frame-start-stop'', PList [PInt 5, PInt 9])]]),
      (''main-header'', PNone)]
     [7] = Inr \<lparr>header = PNone, parts = [[7], []]\<rparr>"
  by (simp add: recorded_ranges_def device_deserialize_def deserialize_part_def unpack2_def
        example_deserialize_def py_slice_def clamp_index_def)

section \<open>Round trip of the bridge\<close>

text \<open>What the round trip computes, whatever the external functions: the external
  deserializer applied to the header that the serializer returned and to the host arrays
  of its frames. It returns the object when the deserializer inverts the serializer
  and \<^verbatim>\<open>numpy.asarray\<close> leaves every frame of the object as it is.\<close>

lemma host_to_device_device_to_host_frames:
  "host_to_device deserialize (device_to_host serialize asarray obj) =
     deserialize (PDict (fst (serialize obj))) (map asarray (snd (serialize obj)))"
  by (cases "serialize obj") (simp add: host_to_device_def device_to_host_def)

lemma host_to_device_device_to_host_fixed_frames:
  assumes "deserialize (PDict (fst (serialize obj))) (snd (serialize obj)) = Inr obj"
      and "\<And>f. f \<in> set (snd (serialize obj)) \<Longrightarrow> asarray f = f"
  shows "host_to_device deserialize (device_to_host serialize asarray obj) = Inr obj"
proof -
  have "map asarray (snd (serialize obj)) = snd (serialize obj)"
    using assms(2) by (simp add: map_idI)
  with assms(1) show ?thesis
    by (simp add: host_to_device_device_to_host_frames)
qed

text \<open>
  C8, evaluated on the code: the object is the empty \<open>bytes\<close> object, a plain byte
  buffer of length zero. The external deserializer inverts the external serializer on
  it, but \<^verbatim>\<open>device_to_host\<close> stores \<^verbatim>\<open>numpy.asarray\<close> of the empty frame, which holds
  one zero byte, and \<^verbatim>\<open>host_to_device\<close> returns a buffer of one zero byte instead of
  the empty buffer. A buffer that is not empty comes back as it was.
\<close>

theorem bridge_empty_bytes_not_restored:
  "bytes_deserialize (PDict (fst (bytes_serialize []))) (snd (bytes_serialize [])) = Inr []
   \<and> parts (device_to_host bytes_serialize bytes_asarray []) = [[0]]
   \<and> host_to_device bytes_deserialize (device_to_host bytes_serialize bytes_asarray []) = Inr [0]
   \<and> host_to_device bytes_deserialize (device_to_host bytes_serialize bytes_asarray [1, 2, 3])
       = Inr [1, 2, 3]"
  by (simp add: host_to_device_def device_to_host_def bytes_serialize_def bytes_deserialize_def
        bytes_asarray_def)

section \<open>The operations of the stores\<close>

lemma File_sel:
  "st_contains File d k = (map_of d k \<noteq> None)"
  "st_get File d k = (case map_of d k of None \<Rightarrow> (Inl (KeyError k), d) | Some b \<Rightarrow> (Inr b, d))"
  "st_set File d k b = AList.update k b d"
  "st_del File d k = (if map_of d k = None then (Inl (KeyError k), d) else (Inr (), AList.delete k d))"
  "st_keys File d = map fst d"
  by (simp_all add: File_def)

lemma Func_sel:
  "st_contains (Func dump load d) = st_contains d"
  "st_get (Func dump load d) s k =
     (case st_get d s k of (Inl e, s') \<Rightarrow> (Inl e, s') | (Inr b, s') \<Rightarrow> (load b, s'))"
  "st_set (Func dump load d) s k v = st_set d s k (dump v)"
  "st_del (Func dump load d) = st_del d"
  "st_keys (Func dump load d) = st_keys d"
  by (simp_all add: Func_def)

lemma Buffer_sel:
  "st_contains (Buffer slow n w) = Buffer_contains slow"
  "st_get (Buffer slow n w) = Buffer_getitem slow"
  "st_set (Buffer slow n w) = Buffer_setitem slow n w"
  "st_del (Buffer slow n w) = Buffer_delitem slow"
  "st_keys (Buffer slow n w) = Buffer_keys slow"
  by (simp_all add: Buffer_def)

lemmas store_sel = File_sel Func_sel Buffer_sel

lemmas cache_defs = setitem_def getitem_def delitem_def len_def iter_def init_def
  device_buffer_def device_host_func_def host_buffer_def disk_func_def
  device_buffer_state_def host_buffer_state_def with_device_buffer_def with_host_buffer_def


section \<open>Stores retain their keys\<close>

lemma retains_set_same: "retains st \<Longrightarrow> st_contains st (st_set st s k v) k"
  unfolding retains_def by blast

lemma retains_File: "retains File"
  by (simp add: retains_def File_sel update_conv' delete_conv)

lemma retains_Func: "retains d \<Longrightarrow> retains (Func dump load d)"
  by (simp add: retains_def Func_sel)

lemma map_of_append_neq_None:
  "(map_of (xs @ ys) k \<noteq> None) = (map_of xs k \<noteq> None \<or> map_of ys k \<noteq> None)"
  by (auto simp add: map_add_def split: option.splits)

lemma evict_retains:
  assumes "retains slow"
      and "map_of fast k \<noteq> None \<or> st_contains slow s k"
  shows "Buffer_contains slow (evict slow w n fast s) k"
  using assms(2)
proof (induction fast arbitrary: s)
  case Nil
  then show ?case by simp
next
  case (Cons kv fast)
  show ?case
  proof (cases "n < fast_weight w (kv # fast)")
    case False
    with Cons.prems show ?thesis by simp
  next
    case True
    have "map_of fast k \<noteq> None \<or> st_contains slow (st_set slow s (fst kv) (snd kv)) k"
    proof (cases "k = fst kv")
      case True
      with assms(1) show ?thesis by (simp add: retains_def)
    next
      case False
      with Cons.prems assms(1) show ?thesis
        by (cases kv) (auto simp add: retains_def)
    qed
    then have "Buffer_contains slow (evict slow w n fast (st_set slow s (fst kv) (snd kv))) k"
      by (rule Cons.IH)
    with True show ?thesis by simp
  qed
qed

lemma Buffer_setitem_contains:
  assumes "retains slow"
  shows "Buffer_contains slow (Buffer_setitem slow n w t k v) k"
proof -
  obtain fast s where t: "t = (fast, s)" by (cases t)
  let ?s1 = "if st_contains slow s k then snd (st_del slow s k) else s"
  let ?fast1 = "AList.delete k fast @ [(k, v)]"
  have in_fast: "map_of ?fast1 k \<noteq> None"
    by (simp add: map_of_append_neq_None)
  show ?thesis
  proof (cases n)
    case None
    with in_fast show ?thesis by (simp add: t Let_def)
  next
    case (Some c)
    have "Buffer_contains slow (evict slow w c ?fast1 ?s1) k"
      using assms in_fast by (intro evict_retains) simp_all
    with Some show ?thesis by (simp add: t Let_def)
  qed
qed

lemma Buffer_setitem_keeps:
  assumes "retains slow" and "Buffer_contains slow t k'"
  shows "Buffer_contains slow (Buffer_setitem slow n w t k v) k'"
proof (cases "k' = k")
  case True
  with assms(1) show ?thesis by (simp add: Buffer_setitem_contains)
next
  case False
  obtain fast s where t: "t = (fast, s)" by (cases t)
  let ?s1 = "if st_contains slow s k then snd (st_del slow s k) else s"
  let ?fast1 = "AList.delete k fast @ [(k, v)]"
  have held: "map_of ?fast1 k' \<noteq> None \<or> st_contains slow ?s1 k'"
    using assms False by (auto simp add: t map_of_append_neq_None delete_conv retains_def)
  show ?thesis
  proof (cases n)
    case None
    with held show ?thesis by (simp add: t Let_def)
  next
    case (Some c)
    have "Buffer_contains slow (evict slow w c ?fast1 ?s1) k'"
      using assms(1) held by (rule evict_retains)
    with Some show ?thesis by (simp add: t Let_def)
  qed
qed

lemma Buffer_delitem_keeps:
  assumes "retains slow" and "k' \<noteq> k" and "Buffer_contains slow t k'"
  shows "Buffer_contains slow (snd (Buffer_delitem slow t k)) k'"
proof -
  obtain fast s where t: "t = (fast, s)" by (cases t)
  have slow_keeps: "st_contains slow s k' \<Longrightarrow> st_contains slow (snd (st_del slow s k)) k'"
    using assms(1,2) by (simp add: retains_def)
  show ?thesis
  proof (cases "st_del slow s k")
    case (Pair r s')
    with slow_keeps have "st_contains slow s k' \<Longrightarrow> st_contains slow s' k'" by simp
    with assms(2,3) Pair show ?thesis
      by (auto simp add: t delete_conv)
  qed
qed

lemma retains_Buffer: "retains slow \<Longrightarrow> retains (Buffer slow n w)"
  unfolding retains_def [of "Buffer slow n w"]
  by (simp add: Buffer_sel Buffer_setitem_contains Buffer_setitem_keeps Buffer_delitem_keeps)

lemma retains_host_buffer: "retains (host_buffer P)"
  by (simp add: host_buffer_def disk_func_def retains_Buffer retains_Func retains_File)

lemma retains_device_buffer: "retains (device_buffer P)"
  by (simp add: device_buffer_def device_host_func_def retains_Buffer retains_Func
        retains_host_buffer)


section \<open>Routing of put\<close>

lemma host_buffer_contains:
  "st_contains (host_buffer P) (host_buffer_state s) key =
     (map_of (host s) key \<noteq> None \<or> map_of (disk s) key \<noteq> None)"
  by (simp add: host_buffer_def disk_func_def host_buffer_state_def store_sel)

lemma device_buffer_contains:
  "st_contains (device_buffer P) (device_buffer_state s) key =
     (map_of (device s) key \<noteq> None \<or> map_of (host s) key \<noteq> None \<or> map_of (disk s) key \<noteq> None)"
  by (simp add: device_buffer_def device_host_func_def host_buffer_def disk_func_def
        device_buffer_state_def store_sel)

lemma buffer_state_with:
  "device_buffer_state (with_device_buffer s t) = t"
  "host_buffer_state (with_host_buffer s u) = u"
  "device_keys (with_device_buffer s t) = device_keys s"
  "device_keys (with_host_buffer s u) = device_keys s"
  "device (with_host_buffer s u) = device s"
  by (simp_all add: device_buffer_state_def host_buffer_state_def with_device_buffer_def
        with_host_buffer_def)

text \<open>
  C5: \<^verbatim>\<open>put\<close> routes by the residency predicate. When it holds of the value, the
  key joins \<^verbatim>\<open>device_keys\<close>, the state of the device buffer is what the buffer's own
  assignment makes of it, and the device buffer holds the key afterwards. Otherwise
  the state of the host buffer is what its own assignment makes of it, the host buffer
  holds the key afterwards, and the device buffer is not touched: its fast map
  \<^verbatim>\<open>device\<close> and \<^verbatim>\<open>device_keys\<close> are as before.
\<close>

theorem setitem_routes_by_residency:
  "(is_device_object P val \<longrightarrow>
        device_keys (setitem P s key val) = insert key (device_keys s)
      \<and> device_buffer_state (setitem P s key val) =
          st_set (device_buffer P) (device_buffer_state s) key val
      \<and> st_contains (device_buffer P) (device_buffer_state (setitem P s key val)) key)
   \<and> (\<not> is_device_object P val \<longrightarrow>
        host_buffer_state (setitem P s key val) =
          st_set (host_buffer P) (host_buffer_state s) key val
      \<and> st_contains (host_buffer P) (host_buffer_state (setitem P s key val)) key
      \<and> device (setitem P s key val) = device s
      \<and> device_keys (setitem P s key val) = device_keys s)"
proof (intro conjI impI)
  assume dev: "is_device_object P val"
  show "device_keys (setitem P s key val) = insert key (device_keys s)"
    using dev by (simp add: setitem_def buffer_state_with)
  show st: "device_buffer_state (setitem P s key val) =
          st_set (device_buffer P) (device_buffer_state s) key val"
    using dev by (simp add: setitem_def buffer_state_with)
  have "st_contains (device_buffer P) (st_set (device_buffer P) (device_buffer_state s) key val) key"
    by (rule retains_set_same [OF retains_device_buffer])
  then show "st_contains (device_buffer P) (device_buffer_state (setitem P s key val)) key"
    by (simp add: st)
next
  assume host: "\<not> is_device_object P val"
  show st: "host_buffer_state (setitem P s key val) =
          st_set (host_buffer P) (host_buffer_state s) key val"
    using host by (simp add: setitem_def buffer_state_with)
  have "st_contains (host_buffer P) (st_set (host_buffer P) (host_buffer_state s) key val) key"
    by (rule retains_set_same [OF retains_host_buffer])
  then show "st_contains (host_buffer P) (host_buffer_state (setitem P s key val)) key"
    by (simp add: st)
  show "device (setitem P s key val) = device s"
    using host by (simp add: setitem_def buffer_state_with)
  show "device_keys (setitem P s key val) = device_keys s"
    using host by (simp add: setitem_def buffer_state_with)
qed

theorem setitem_routes_by_residency_witness:
  "device_keys (setitem example_params init ''a'' (OnDevice [1, 2, 3])) = {''a''}
   \<and> device (setitem example_params init ''a'' (OnDevice [1, 2, 3])) = [(''a'', OnDevice [1, 2, 3])]
   \<and> host (setitem example_params init ''c'' (OnHost [7])) = [(''c'', OnHost [7])]
   \<and> device (setitem example_params init ''c'' (OnHost [7])) = []
   \<and> device_keys (setitem example_params init ''c'' (OnHost [7])) = {}"
  using setitem_routes_by_residency [of example_params "OnDevice [1, 2, 3]" init "''a''"]
        setitem_routes_by_residency [of example_params "OnHost [7]" init "''c''"]
  by (simp add: cache_defs store_sel example_params_def fast_weight_def)

section \<open>Routing of get\<close>

text \<open>
  C4: a key that is neither in \<^verbatim>\<open>device_keys\<close> nor in the host buffer (its fast map
  or the disk) fails with \<open>KeyError\<close>, returns no value and leaves the state as it was.
  A key in \<^verbatim>\<open>device_keys\<close> is looked up in the device buffer; any other key that the
  host buffer holds is looked up in the host buffer. A value found in the fast map of
  the buffer chosen is returned as it is.
\<close>

theorem getitem_routing:
  "(key \<notin> device_keys s \<and> map_of (host s) key = None \<and> map_of (disk s) key = None \<longrightarrow>
      getitem P s key = (Inl (KeyError key), s))
   \<and> (key \<in> device_keys s \<longrightarrow>
      getitem P s key =
        (case st_get (device_buffer P) (device_buffer_state s) key of
           (r, t) \<Rightarrow> (r, with_device_buffer s t)))
   \<and> (key \<notin> device_keys s \<and> (map_of (host s) key \<noteq> None \<or> map_of (disk s) key \<noteq> None) \<longrightarrow>
      getitem P s key =
        (case st_get (host_buffer P) (host_buffer_state s) key of
           (r, t) \<Rightarrow> (r, with_host_buffer s t)))
   \<and> (key \<in> device_keys s \<and> map_of (device s) key = Some v \<longrightarrow>
      fst (getitem P s key) = Inr v)
   \<and> (key \<notin> device_keys s \<and> map_of (host s) key = Some v \<longrightarrow>
      fst (getitem P s key) = Inr v)"
proof (intro conjI impI)
  assume "key \<notin> device_keys s \<and> map_of (host s) key = None \<and> map_of (disk s) key = None"
  then show "getitem P s key = (Inl (KeyError key), s)"
    by (simp add: getitem_def host_buffer_contains)
next
  assume "key \<in> device_keys s"
  then show "getitem P s key =
        (case st_get (device_buffer P) (device_buffer_state s) key of
           (r, t) \<Rightarrow> (r, with_device_buffer s t))"
    by (simp add: getitem_def)
next
  assume "key \<notin> device_keys s \<and> (map_of (host s) key \<noteq> None \<or> map_of (disk s) key \<noteq> None)"
  then show "getitem P s key =
        (case st_get (host_buffer P) (host_buffer_state s) key of
           (r, t) \<Rightarrow> (r, with_host_buffer s t))"
    by (simp add: getitem_def host_buffer_contains)
next
  assume "key \<in> device_keys s \<and> map_of (device s) key = Some v"
  then show "fst (getitem P s key) = Inr v"
    by (simp add: getitem_def device_buffer_def device_buffer_state_def store_sel)
next
  assume "key \<notin> device_keys s \<and> map_of (host s) key = Some v"
  then show "fst (getitem P s key) = Inr v"
    by (simp add: getitem_def host_buffer_def host_buffer_state_def disk_func_def store_sel)
qed


theorem getitem_routing_witness:
  "fst (getitem example_params
          (setitem example_params (setitem example_params init ''a'' (OnDevice [1, 2, 3]))
             ''c'' (OnHost [7])) ''a'') = Inr (OnDevice [1, 2, 3])
   \<and> fst (getitem example_params
          (setitem example_params (setitem example_params init ''a'' (OnDevice [1, 2, 3]))
             ''c'' (OnHost [7])) ''c'') = Inr (OnHost [7])
   \<and> fst (getitem example_params
          (setitem example_params (setitem example_params init ''a'' (OnDevice [1, 2, 3]))
             ''c'' (OnHost [7])) ''d'') = Inl (KeyError ''d'')"
  using getitem_routing [of "''a''"
          "setitem example_params (setitem example_params init ''a'' (OnDevice [1, 2, 3])) ''c'' (OnHost [7])"
          example_params "OnDevice [1, 2, 3]"]
        getitem_routing [of "''c''"
          "setitem example_params (setitem example_params init ''a'' (OnDevice [1, 2, 3])) ''c'' (OnHost [7])"
          example_params "OnHost [7]"]
        getitem_routing [of "''d''"
          "setitem example_params (setitem example_params init ''a'' (OnDevice [1, 2, 3])) ''c'' (OnHost [7])"
          example_params "OnHost [7]"]
  by (simp add: cache_defs store_sel example_params_def fast_weight_def)

section \<open>Deletion\<close>

lemma evict_newest_once:
  assumes "k \<notin> fst ` set xs" and "map_of d k = None"
  shows "(map_of (fst (evict (disk_func P) w n (xs @ [(k, v)]) d)) k \<noteq> None) \<noteq>
         (map_of (snd (evict (disk_func P) w n (xs @ [(k, v)]) d)) k \<noteq> None)"
  using assms
proof (induction xs arbitrary: d)
  case Nil
  then show ?case by (simp add: disk_func_def store_sel update_conv')
next
  case (Cons x xs)
  show ?case
  proof (cases "n < fast_weight w (x # xs @ [(k, v)])")
    case False
    with Cons.prems show ?thesis by (simp add: map_of_eq_None_iff)
  next
    case True
    have d1: "map_of (st_set (disk_func P) d (fst x) (snd x)) k = None"
      using Cons.prems by (simp add: disk_func_def store_sel update_conv')
    from Cons.prems have "k \<notin> fst ` set xs" by simp
    from Cons.IH [OF this d1] True show ?thesis by simp
  qed
qed

lemma host_put_once:
  "(map_of (fst (st_set (host_buffer P) (h, d) key val)) key \<noteq> None) \<noteq>
   (map_of (snd (st_set (host_buffer P) (h, d) key val)) key \<noteq> None)"
proof -
  let ?d1 = "if st_contains (disk_func P) d key then snd (st_del (disk_func P) d key) else d"
  have d1: "map_of ?d1 key = None"
    by (simp add: disk_func_def store_sel delete_conv)
  have fresh: "key \<notin> fst ` set (AList.delete key h)"
    by (rule delete_notin_dom)
  show ?thesis
  proof (cases "memory_limit P")
    case None
    then show ?thesis
      using d1 by (simp add: host_buffer_def store_sel Let_def map_of_append_neq_None delete_conv)
  next
    case (Some c)
    from evict_newest_once [OF fresh d1, of P "weight P" c val] Some show ?thesis
      by (simp add: host_buffer_def store_sel Let_def)
  qed
qed

lemma delitem_cases:
  "delitem P s key =
      (if map_of (device s) key \<noteq> None
       then (Inr (), s\<lparr>device_keys := device_keys s - {key}, device := AList.delete key (device s)\<rparr>)
       else if map_of (host s) key \<noteq> None
       then (Inr (), s\<lparr>device_keys := device_keys s - {key}, host := AList.delete key (host s)\<rparr>)
       else if map_of (disk s) key \<noteq> None
       then (Inr (), s\<lparr>device_keys := device_keys s - {key}, disk := AList.delete key (disk s)\<rparr>)
       else (Inl (KeyError key), s\<lparr>device_keys := device_keys s - {key}\<rparr>))"
  by (simp add: delitem_def device_buffer_def device_host_func_def host_buffer_def
        disk_func_def device_buffer_state_def with_device_buffer_def store_sel)

text \<open>
  What \<^verbatim>\<open>__delitem__\<close> does in every state. The key leaves \<^verbatim>\<open>device_keys\<close>, and
  it is deleted from the first map that holds it: from the fast map of the device
  buffer when it is there, otherwise from the fast map of the host buffer when it is
  there, otherwise from the disk; the other maps stay as they are. So a key that one
  map alone holds is gone afterwards, as is a key put with a value that is not
  device-resident when the fast map of the device buffer does not hold it.
\<close>

lemma delitem_first_holder:
  "(map_of (device s) key \<noteq> None \<or> map_of (host s) key \<noteq> None \<or> map_of (disk s) key \<noteq> None \<longrightarrow>
      fst (delitem P s key) = Inr ()
    \<and> device_keys (snd (delitem P s key)) = device_keys s - {key})
   \<and> (map_of (device s) key \<noteq> None \<longrightarrow>
        device (snd (delitem P s key)) = AList.delete key (device s)
      \<and> host (snd (delitem P s key)) = host s
      \<and> disk (snd (delitem P s key)) = disk s)
   \<and> (map_of (device s) key = None \<and> map_of (host s) key \<noteq> None \<longrightarrow>
        device (snd (delitem P s key)) = device s
      \<and> host (snd (delitem P s key)) = AList.delete key (host s)
      \<and> disk (snd (delitem P s key)) = disk s)
   \<and> (map_of (device s) key = None \<and> map_of (host s) key = None
        \<and> map_of (disk s) key \<noteq> None \<longrightarrow>
        device (snd (delitem P s key)) = device s
      \<and> host (snd (delitem P s key)) = host s
      \<and> disk (snd (delitem P s key)) = AList.delete key (disk s))
   \<and> (\<not> is_device_object P val \<and> map_of (device s) key = None \<longrightarrow>
        fst (delitem P (setitem P s key val) key) = Inr ()
      \<and> map_of (host (snd (delitem P (setitem P s key val) key))) key = None
      \<and> map_of (disk (snd (delitem P (setitem P s key val) key))) key = None)"
proof -
  have put: "\<not> is_device_object P val \<and> map_of (device s) key = None \<longrightarrow>
        fst (delitem P (setitem P s key val) key) = Inr ()
      \<and> map_of (host (snd (delitem P (setitem P s key val) key))) key = None
      \<and> map_of (disk (snd (delitem P (setitem P s key val) key))) key = None"
  proof
    assume a: "\<not> is_device_object P val \<and> map_of (device s) key = None"
    let ?t = "st_set (host_buffer P) (host s, disk s) key val"
    have s1: "setitem P s key val = s\<lparr>host := fst ?t, disk := snd ?t\<rparr>"
      using a by (simp add: setitem_def with_host_buffer_def host_buffer_state_def)
    from host_put_once [of P "host s" "disk s" key val]
    show "fst (delitem P (setitem P s key val) key) = Inr ()
      \<and> map_of (host (snd (delitem P (setitem P s key val) key))) key = None
      \<and> map_of (disk (snd (delitem P (setitem P s key val) key))) key = None"
      using a by (auto simp add: s1 delitem_cases delete_conv)
  qed
  show ?thesis
    using put by (simp add: delitem_cases)
qed

lemma delitem_first_holder_examples:
  "fst (delitem example_params (setitem example_params init ''k'' (OnHost [9])) ''k'') = Inr ()
   \<and> host (snd (delitem example_params (setitem example_params init ''k'' (OnHost [9])) ''k'')) = []
   \<and> disk (setitem example_params (setitem example_params init ''a'' (OnHost [1, 2, 3]))
             ''b'' (OnHost [4, 5])) = [(''a'', OnHost [1, 2, 3])]
   \<and> disk (snd (delitem example_params
        (setitem example_params (setitem example_params init ''a'' (OnHost [1, 2, 3]))
             ''b'' (OnHost [4, 5])) ''a'')) = []
   \<and> fst (delitem example_params (setitem example_params init ''j'' (OnDevice [1])) ''j'') = Inr ()
   \<and> fst (getitem example_params
            (snd (delitem example_params (setitem example_params init ''j'' (OnDevice [1])) ''j''))
            ''j'') = Inl (KeyError ''j'')
   \<and> iter example_params
        (snd (delitem example_params (setitem example_params init ''j'' (OnDevice [1])) ''j'')) = []"
  using delitem_first_holder
          [of "setitem example_params init ''k'' (OnHost [9])" "''k''" example_params "OnHost [9]"]
        delitem_first_holder
          [of "setitem example_params (setitem example_params init ''a'' (OnHost [1, 2, 3]))
             ''b'' (OnHost [4, 5])" "''a''" example_params "OnHost [9]"]
        delitem_first_holder
          [of "setitem example_params init ''j'' (OnDevice [1])" "''j''" example_params "OnHost [9]"]
  by (simp add: cache_defs store_sel example_params_def fast_weight_def)

text \<open>
  C3, evaluated on the code: a key is put with a device-resident value, put again with
  a value that is not device-resident, and deleted. Before the deletion the fast map of
  the device buffer and the host buffer both hold the key. \<^verbatim>\<open>__delitem__\<close> returns
  normally and the key leaves \<^verbatim>\<open>device_keys\<close>, but only the copy of the device buffer
  is deleted: the host buffer still holds the key, a lookup returns the second value
  and the key is still iterated.
\<close>

theorem delitem_after_reput_keeps_host_copy:
  "map_of (device (setitem example_params
              (setitem example_params init ''k'' (OnDevice [1, 2, 3])) ''k'' (OnHost [9]))) ''k''
     = Some (OnDevice [1, 2, 3])
   \<and> map_of (host (setitem example_params
              (setitem example_params init ''k'' (OnDevice [1, 2, 3])) ''k'' (OnHost [9]))) ''k''
     = Some (OnHost [9])
   \<and> fst (delitem example_params
            (setitem example_params
               (setitem example_params init ''k'' (OnDevice [1, 2, 3])) ''k'' (OnHost [9]))
            ''k'') = Inr ()
   \<and> snd (delitem example_params
            (setitem example_params
               (setitem example_params init ''k'' (OnDevice [1, 2, 3])) ''k'' (OnHost [9]))
            ''k'')
     = \<lparr>device_keys = {}, device = [], host = [(''k'', OnHost [9])], disk = []\<rparr>
   \<and> fst (getitem example_params
            \<lparr>device_keys = {}, device = [], host = [(''k'', OnHost [9])], disk = []\<rparr> ''k'')
     = Inr (OnHost [9])
   \<and> iter example_params
        \<lparr>device_keys = {}, device = [], host = [(''k'', OnHost [9])], disk = []\<rparr> = [''k'']"
  by (simp add: cache_defs store_sel example_params_def fast_weight_def)

section \<open>Size and iteration\<close>

text \<open>
  C9, as the code behaves: size and iteration are those of the device buffer, and the
  slow mapping of the device buffer is the host buffer. Iteration yields the keys of
  the fast map of the device buffer, then the keys of the fast map of the host buffer,
  then the keys on disk, leaving out a key that an earlier map holds; the size is the
  number of keys yielded. Every key of every tier is yielded.
\<close>

theorem len_iter_all_tiers:
  "len P s = length (iter P s)
   \<and> iter P s =
       map fst (device s) @
       filter (\<lambda>k. map_of (device s) k = None)
         (map fst (host s) @ filter (\<lambda>k. map_of (host s) k = None) (map fst (disk s)))
   \<and> set (iter P s) = fst ` set (device s) \<union> fst ` set (host s) \<union> fst ` set (disk s)"
proof -
  have it: "iter P s =
       map fst (device s) @
       filter (\<lambda>k. map_of (device s) k = None)
         (map fst (host s) @ filter (\<lambda>k. map_of (host s) k = None) (map fst (disk s)))"
    by (simp add: iter_def device_buffer_def device_host_func_def host_buffer_def disk_func_def
          device_buffer_state_def store_sel)
  have "set (iter P s) = fst ` set (device s) \<union> fst ` set (host s) \<union> fst ` set (disk s)"
    unfolding it by (auto simp add: map_of_eq_None_iff)
  with it show ?thesis by (simp add: len_def iter_def)
qed

theorem len_iter_all_tiers_witness:
  "len example_params
     (setitem example_params (setitem example_params (setitem example_params init
        ''a'' (OnDevice [1, 2, 3])) ''b'' (OnDevice [4, 5])) ''c'' (OnHost [7, 7, 7])) = 3
   \<and> iter example_params
     (setitem example_params (setitem example_params (setitem example_params init
        ''a'' (OnDevice [1, 2, 3])) ''b'' (OnDevice [4, 5])) ''c'' (OnHost [7, 7, 7]))
     = [''b'', ''c'', ''a'']"
  using len_iter_all_tiers [of example_params
     "setitem example_params (setitem example_params (setitem example_params init
        ''a'' (OnDevice [1, 2, 3])) ''b'' (OnDevice [4, 5])) ''c'' (OnHost [7, 7, 7])"]
  by (simp add: cache_defs store_sel example_params_def fast_weight_def)

text \<open>
  The claim that a key stored only in the host buffer is neither counted nor yielded
  fails: after one put of a value that is not device-resident into the empty cache, the
  fast map of the device buffer is empty, the size is 1 and the key is yielded.
\<close>

theorem len_iter_host_only_counterexample:
  "device (setitem example_params init ''k'' (OnHost [9])) = []
   \<and> device_keys (setitem example_params init ''k'' (OnHost [9])) = {}
   \<and> host (setitem example_params init ''k'' (OnHost [9])) = [(''k'', OnHost [9])]
   \<and> len example_params (setitem example_params init ''k'' (OnHost [9])) = 1
   \<and> iter example_params (setitem example_params init ''k'' (OnHost [9])) = [''k'']"
  by (simp add: cache_defs store_sel example_params_def fast_weight_def)

section \<open>A re-put that changes the tier\<close>

text \<open>Whatever the parameters and the state, a key put with a device-resident value
  and then with a value that is not device-resident stays in \<^verbatim>\<open>device_keys\<close>, and
  its lookup is the lookup of the device buffer.\<close>

lemma reput_keeps_device_key:
  assumes "is_device_object P v1" and "\<not> is_device_object P v2"
  shows "key \<in> device_keys (setitem P (setitem P s key v1) key v2)"
  using assms by (simp add: setitem_def buffer_state_with with_host_buffer_def with_device_buffer_def)

lemma reput_get_from_device_buffer:
  assumes "is_device_object P v1" and "\<not> is_device_object P v2"
  shows "getitem P (setitem P (setitem P s key v1) key v2) key =
     (case st_get (device_buffer P)
             (device_buffer_state (setitem P (setitem P s key v1) key v2)) key of
        (r, t) \<Rightarrow> (r, with_device_buffer (setitem P (setitem P s key v1) key v2) t))"
  using reput_keeps_device_key [OF assms] by (simp add: getitem_def)

text \<open>
  C2, evaluated on the code: a key is put with a device-resident value and put again
  with a value that is not device-resident. \<^verbatim>\<open>__setitem__\<close> leaves the key in
  \<^verbatim>\<open>device_keys\<close>, so \<^verbatim>\<open>__getitem__\<close> still goes to the device buffer and returns
  the first value, while the second value sits in the host buffer.
\<close>

theorem reput_on_host_keeps_device_route:
  "example_is_device (OnDevice [1, 2, 3]) \<and> \<not> example_is_device (OnHost [9])
   \<and> ''k'' \<in> device_keys (setitem example_params
                 (setitem example_params init ''k'' (OnDevice [1, 2, 3])) ''k'' (OnHost [9]))
   \<and> fst (getitem example_params
            (setitem example_params
               (setitem example_params init ''k'' (OnDevice [1, 2, 3])) ''k'' (OnHost [9]))
            ''k'') = Inr (OnDevice [1, 2, 3])
   \<and> host (setitem example_params
            (setitem example_params init ''k'' (OnDevice [1, 2, 3])) ''k'' (OnHost [9]))
       = [(''k'', OnHost [9])]"
  by (simp add: cache_defs store_sel example_params_def fast_weight_def)

end
